theory Spec2Isabelle
  imports Complex_Main "HOL-Library.Sublist"
begin

section \<open>Text: Python strings as sequences of code points\<close>

text \<open>
  A Python \<^verbatim>\<open>str\<close> is a sequence of Unicode code points; \<^verbatim>\<open>len\<close> counts them.
  A code point is a natural number here, and \<open>str_of\<close> reads an ASCII literal.
\<close>

type_synonym str = "nat list"

definition str_of :: "string \<Rightarrow> str" where
  "str_of s = map of_char s"

text \<open>
  The regular-expression class \<^verbatim>\<open>\s\<close> on a \<^verbatim>\<open>str\<close> pattern and \<^verbatim>\<open>str.strip()\<close> both
  test a code point with the interpreter's whitespace predicate: the ASCII controls
  9..13 and 28..31, the space, and the Unicode separators NEL, NBSP, U+1680,
  U+2000..U+200A, U+2028, U+2029, U+202F, U+205F and U+3000.
\<close>

definition is_space :: "nat \<Rightarrow> bool" where
  "is_space c \<longleftrightarrow>
     (9 \<le> c \<and> c \<le> 13) \<or> (28 \<le> c \<and> c \<le> 32) \<or> c = 133 \<or> c = 160 \<or> c = 5760 \<or>
     (8192 \<le> c \<and> c \<le> 8202) \<or> c = 8232 \<or> c = 8233 \<or> c = 8239 \<or> c = 8287 \<or> c = 12288"

text \<open>The class \<^verbatim>\<open>[A-Za-z]\<close>.\<close>

definition is_alpha :: "nat \<Rightarrow> bool" where
  "is_alpha c \<longleftrightarrow> (65 \<le> c \<and> c \<le> 90) \<or> (97 \<le> c \<and> c \<le> 122)"

text \<open>The class \<^verbatim>\<open>[,.!?;:]\<close>.\<close>

definition is_punct :: "nat \<Rightarrow> bool" where
  "is_punct c \<longleftrightarrow> c = 44 \<or> c = 46 \<or> c = 33 \<or> c = 63 \<or> c = 59 \<or> c = 58"

text \<open>The asterisk and the space.\<close>

abbreviation star :: nat where "star \<equiv> 42"
abbreviation blank :: nat where "blank \<equiv> 32"



section \<open>main.py: reply clean-up\<close>

text \<open>
  \<^verbatim>\<open>\*[A-Za-z]+\*\<close> at the head of a text: an asterisk, the longest run of letters
  (one at least), an asterisk. Giving letters back cannot help the match, since the
  character after a shorter run is a letter. The result is the text after the match.
\<close>

fun match_fx :: "str \<Rightarrow> str option" where
  "match_fx [] = None"
| "match_fx (c # cs) =
     (if c = star then
        (case dropWhile is_alpha cs of
           [] \<Rightarrow> None
         | r # rs \<Rightarrow> if r = star \<and> takeWhile is_alpha cs \<noteq> [] then Some rs else None)
      else None)"

text \<open>
  \<^verbatim>\<open>re.sub(r"\*[A-Za-z]+\*", "", text)\<close>: one scan from the left; a match is deleted and
  the scan goes on after it, any other character is kept.
\<close>

function sub_fx :: "str \<Rightarrow> str" where
  "sub_fx [] = []"
| "sub_fx (c # cs) =
     (case match_fx (c # cs) of
        Some rest \<Rightarrow> sub_fx rest
      | None \<Rightarrow> c # sub_fx cs)"
  by pat_completeness auto
termination
proof (relation "measure length")
  show "wf (measure length)" by simp
next
  fix c :: nat and cs rest :: str
  assume "match_fx (c # cs) = Some rest"
  then obtain r where d: "dropWhile is_alpha cs = r # rest"
    by (auto split: if_splits list.splits)
  have "length (dropWhile is_alpha cs) \<le> length cs" by (rule length_dropWhile_le)
  with d show "(rest, c # cs) \<in> measure length" by simp
next
  fix c :: nat and cs :: str
  show "(cs, c # cs) \<in> measure length" by simp
qed

text \<open>\<^verbatim>\<open>re.sub(r"\s+", " ", text)\<close>: every maximal run of whitespace becomes one space.\<close>

function collapse_ws :: "str \<Rightarrow> str" where
  "collapse_ws [] = []"
| "collapse_ws (c # cs) =
     (if is_space c then blank # collapse_ws (dropWhile is_space cs)
      else c # collapse_ws cs)"
  by pat_completeness auto
termination
proof (relation "measure length")
  show "wf (measure length)" by simp
next
  fix c :: nat and cs :: str
  have "length (dropWhile is_space cs) \<le> length cs" by (rule length_dropWhile_le)
  then show "(dropWhile is_space cs, c # cs) \<in> measure length" by simp
next
  fix c :: nat and cs :: str
  show "(cs, c # cs) \<in> measure length" by simp
qed

text \<open>\<^verbatim>\<open>str.strip()\<close>: whitespace is removed at both ends.\<close>

definition strip_ws :: "str \<Rightarrow> str" where
  "strip_ws s = rev (dropWhile is_space (rev (dropWhile is_space s)))"

text \<open>
  \<^verbatim>\<open>re.sub(r"\s+([,.!?;:])", r"\1", text)\<close>: at a whitespace character the longest run
  of whitespace must be followed by a punctuation mark; then the run is deleted, the
  mark kept, and the scan goes on after the mark. Otherwise the character is kept.
\<close>

function sub_punct :: "str \<Rightarrow> str" where
  "sub_punct [] = []"
| "sub_punct (c # cs) =
     (if is_space c then
        (case dropWhile is_space cs of
           [] \<Rightarrow> c # sub_punct cs
         | r # rs \<Rightarrow> if is_punct r then r # sub_punct rs else c # sub_punct cs)
      else c # sub_punct cs)"
  by pat_completeness auto
termination
proof (relation "measure length")
  show "wf (measure length)" by simp
next
  fix c :: nat and cs :: str
  show "(cs, c # cs) \<in> measure length" by simp
next
  fix c r :: nat and cs rs :: str
  assume d: "dropWhile is_space cs = r # rs"
  have "length (dropWhile is_space cs) \<le> length cs" by (rule length_dropWhile_le)
  with d show "(rs, c # cs) \<in> measure length" by simp
next
  fix c :: nat and cs :: str
  show "(cs, c # cs) \<in> measure length" by simp
next
  fix c :: nat and cs :: str
  show "(cs, c # cs) \<in> measure length" by simp
qed

text \<open>\<^verbatim>\<open>_strip_sound_effects\<close>: the three substitutions of the source, in its order.\<close>

definition strip_sound_effects :: "str \<Rightarrow> str" where
  "strip_sound_effects t = sub_punct (strip_ws (collapse_ws (sub_fx t)))"


subsection \<open>The clean-up in the words of the specification\<close>






section \<open>Exceptions and console output\<close>

text \<open>
  An exception is a value. \<open>ConnectionError\<close> is the socket library's connection
  error, \<open>OtherError\<close> any other \<^verbatim>\<open>Exception\<close>.
\<close>

datatype exn = RuntimeError string | ConnectionError | OtherError

text \<open>The lines the three modules print, with the values they show.\<close>

datatype log_line =
    DropEvent string
  | EmitError string
  | CannotSend
  | Forwarded str
  | Sent str
  | SendError
  | Stopped
  | Connecting
  | ConnectionFailed nat nat
  | UnexpectedError

section \<open>director\_bridge.py: the event channel\<close>

text \<open>
  The two payloads sent to the director: the dictionary of \<^verbatim>\<open>emit_twitch_message\<close>
  and the dictionary of \<^verbatim>\<open>emit_scored_event\<close> with its nested \<^verbatim>\<open>metadata\<close>.
\<close>

record metadata =
  meta_username :: str
  mentioned_bot :: bool
  message_length :: nat
  relevance :: real

record scored_event =
  source_str :: string
  event_text :: str
  event_metadata :: metadata
  event_username :: str

datatype payload = RawMessage str str | ScoredEvent scored_event

text \<open>
  What leaves the module: \<open>wire\<close> holds the events handed to the transport by
  \<^verbatim>\<open>sio.emit\<close>, oldest first, and \<open>printed\<close> the lines printed. The module keeps no
  buffer of events.
\<close>

record channel =
  wire :: "(string \<times> payload) list"
  printed :: "log_line list"

text \<open>
  The socket client belongs to the library and changes under the module's hands. One
  call of \<^verbatim>\<open>_safe_emit\<close> sees its \<^verbatim>\<open>connected\<close> flag once and, when it emits, either
  gets the event onto the transport or gets an exception.
\<close>

datatype emit_outcome = EmitOk | EmitRaises

record sio_view =
  sio_connected :: bool
  emit_outcome :: emit_outcome

fun sio_emit :: "emit_outcome \<Rightarrow> string \<Rightarrow> payload \<Rightarrow> channel \<Rightarrow> exn + channel" where
  "sio_emit EmitOk event p ch = Inr (ch\<lparr>wire := wire ch @ [(event, p)]\<rparr>)"
| "sio_emit EmitRaises event p ch = Inl OtherError"

text \<open>
  \<^verbatim>\<open>_safe_emit\<close>: the body of the \<^verbatim>\<open>try\<close>, then the handler of \<^verbatim>\<open>except Exception\<close>,
  which prints and returns.
\<close>

definition safe_emit :: "sio_view \<Rightarrow> string \<Rightarrow> payload \<Rightarrow> channel \<Rightarrow> exn + channel" where
  "safe_emit v event p ch =
     (case (if sio_connected v then sio_emit (emit_outcome v) event p ch
            else Inr (ch\<lparr>printed := printed ch @ [DropEvent event]\<rparr>)) of
        Inl e \<Rightarrow> Inr (ch\<lparr>printed := printed ch @ [EmitError event]\<rparr>)
      | Inr ch' \<Rightarrow> Inr ch')"

definition emit_twitch_message :: "sio_view \<Rightarrow> str \<Rightarrow> str \<Rightarrow> channel \<Rightarrow> exn + channel" where
  "emit_twitch_message v username message ch =
     safe_emit v ''twitch_message'' (RawMessage username message) ch"

definition emit_scored_event ::
    "sio_view \<Rightarrow> str \<Rightarrow> str \<Rightarrow> bool \<Rightarrow> channel \<Rightarrow> exn + channel" where
  "emit_scored_event v username message is_mention ch =
     safe_emit v ''event''
       (ScoredEvent
          \<lparr>source_str = (if is_mention then ''TWITCH_MENTION'' else ''TWITCH_CHAT''),
           event_text = message,
           event_metadata =
             \<lparr>meta_username = username, mentioned_bot = is_mention,
              message_length = length message, relevance = 1 / 2\<rparr>,
           event_username = username\<rparr>)
       ch"

subsection \<open>The connection loop\<close>

text \<open>
  Time is counted in half seconds of sleep. \<^verbatim>\<open>stop()\<close> may clear \<^verbatim>\<open>_is_running\<close> from
  another thread: \<open>deadline\<close> is the time at which it does, if it ever does, and
  \<open>running\<close> is what a read of the flag at a given time returns.
\<close>

definition running :: "nat option \<Rightarrow> nat \<Rightarrow> bool" where
  "running deadline t = (case deadline of None \<Rightarrow> True | Some d \<Rightarrow> t < d)"

text \<open>
  What one turn of the outer loop meets: the client already connected, a
  \<^verbatim>\<open>sio.connect\<close> that returns (the connection then lasts for so many polls), one that
  raises the library's connection error, or one that raises anything else.
\<close>

datatype attempt = AlreadyConnected | ConnectOk nat | ConnectFailed | ConnectUnexpected

record connector =
  failures :: nat
  clock :: nat
  connector_log :: "log_line list"

text \<open>
  \<^verbatim>\<open>for _ in range(wait * 2)\<close>: each round reads the flag, returns from the function if
  it is cleared, and sleeps half a second otherwise. The result is the time afterwards
  and whether the function returned.
\<close>

fun backoff :: "nat option \<Rightarrow> nat \<Rightarrow> nat \<Rightarrow> nat \<times> bool" where
  "backoff deadline 0 t = (t, False)"
| "backoff deadline (Suc n) t =
     (if \<not> running deadline t then (t, True) else backoff deadline n (t + 1))"

text \<open>\<^verbatim>\<open>while _is_running and sio.connected: time.sleep(1)\<close>, the connection lasting \<open>k\<close> polls.\<close>

fun idle :: "nat option \<Rightarrow> nat \<Rightarrow> nat \<Rightarrow> nat" where
  "idle deadline 0 t = t"
| "idle deadline (Suc k) t = (if running deadline t then idle deadline k (t + 2) else t)"

text \<open>
  \<^verbatim>\<open>_run_connector\<close> from \<^verbatim>\<open>while _is_running\<close> on, over the attempts it meets; the
  local \<^verbatim>\<open>failures\<close> starts at 0 in \<open>fresh\<close>.
\<close>

definition fresh :: connector where
  "fresh = \<lparr>failures = 0, clock = 0, connector_log = []\<rparr>"

fun run_connector :: "nat option \<Rightarrow> attempt list \<Rightarrow> connector \<Rightarrow> connector" where
  "run_connector deadline [] c = c"
| "run_connector deadline (a # as) c =
     (if \<not> running deadline (clock c) then c
      else case a of
        AlreadyConnected \<Rightarrow> run_connector deadline as (c\<lparr>clock := clock c + 2\<rparr>)
      | ConnectOk k \<Rightarrow>
          run_connector deadline as
            (c\<lparr>failures := 0, clock := idle deadline k (clock c),
               connector_log := connector_log c @ [Connecting]\<rparr>)
      | ConnectFailed \<Rightarrow>
          (let f = failures c + 1;
               wait = min (5 * f) 30;
               c' = c\<lparr>failures := f,
                      clock := fst (backoff deadline (wait * 2) (clock c)),
                      connector_log := connector_log c @ [Connecting, ConnectionFailed f wait]\<rparr>
           in if snd (backoff deadline (wait * 2) (clock c)) then c'
              else run_connector deadline as c')
      | ConnectUnexpected \<Rightarrow>
          run_connector deadline as
            (c\<lparr>clock := clock c + 10,
               connector_log := connector_log c @ [Connecting, UnexpectedError]\<rparr>))"

text \<open>
  The failures that count towards the next delay, in the words of the specification:
  the recognised connection failures since the last successful connection, unexpected
  errors counting for nothing.
\<close>

fun is_ok :: "attempt \<Rightarrow> bool" where
  "is_ok (ConnectOk k) = True"
| "is_ok a = False"

definition since_last_ok :: "attempt list \<Rightarrow> attempt list" where
  "since_last_ok as = rev (takeWhile (\<lambda>a. \<not> is_ok a) (rev as))"

definition streak :: "attempt list \<Rightarrow> nat" where
  "streak as = length (filter (\<lambda>a. a = ConnectFailed) (since_last_ok as))"

section \<open>twitch\_client.py: the chat provider\<close>

record chat_message =
  user_name :: str
  msg_text :: str

datatype send_outcome = SendOk | SendRaises

text \<open>
  The module's globals: \<open>event_loop\<close> and \<open>chat\<close> say whether \<^verbatim>\<open>_event_loop\<close> and
  \<^verbatim>\<open>_chat\<close> are set, \<open>message_queue\<close> is the queue once it exists. \<open>thread_exit\<close>
  is the exception that ended the background thread, if one did; \<open>chat_sends\<close> the
  calls of the provider's send primitive, oldest first, each with what it did.
\<close>

record twitch_client =
  auth_tokens :: "(str \<times> str) option"
  event_loop :: bool
  message_queue :: "str list option"
  chat :: bool
  is_running :: bool
  thread_exit :: "exn option"
  chat_sends :: "(str \<times> send_outcome) list"
  client_log :: "log_line list"

text \<open>\<^verbatim>\<open>authenticate\<close>: the OAuth flow either yields a credential pair or raises.\<close>

definition authenticate :: "(str \<times> str) option \<Rightarrow> twitch_client \<Rightarrow> twitch_client \<times> bool" where
  "authenticate flow cl =
     (case flow of
        Some tokens \<Rightarrow> (cl\<lparr>auth_tokens := Some tokens\<rparr>, True)
      | None \<Rightarrow> (cl, False))"

text \<open>
  \<^verbatim>\<open>_on_message\<close>. \<^verbatim>\<open>BOT_NAME\<close> comes from the configuration module and
  \<^verbatim>\<open>str.lower\<close> from the interpreter: both are parameters. The registered callback
  acts on a state of its own and may raise.
\<close>

definition on_message ::
    "(str \<Rightarrow> str) \<Rightarrow> str \<Rightarrow> (chat_message \<Rightarrow> 'w \<Rightarrow> exn + 'w) option \<Rightarrow>
     chat_message \<Rightarrow> 'w \<Rightarrow> exn + 'w" where
  "on_message lower bot_name on_message_cb msg w =
     (if lower (user_name msg) = lower bot_name then Inr w
      else case on_message_cb of None \<Rightarrow> Inr w | Some cb \<Rightarrow> cb msg w)"

text \<open>\<^verbatim>\<open>str.lower\<close> on ASCII text, to run the model on examples.\<close>

definition ascii_lower :: "str \<Rightarrow> str" where
  "ascii_lower s = map (\<lambda>c. if 65 \<le> c \<and> c \<le> 90 then c + 32 else c) s"

text \<open>
  One turn of \<^verbatim>\<open>_sender_loop\<close>: an empty queue times out and the loop goes round; else
  the oldest message is taken and, if the chat session is set, sent, an exception of
  the send being caught and printed. The loop is entered by \<^verbatim>\<open>_run\<close> only, after the
  queue is made; without a queue the turn does nothing here.
\<close>

definition sender_step :: "send_outcome \<Rightarrow> twitch_client \<Rightarrow> twitch_client" where
  "sender_step outcome cl =
     (if \<not> is_running cl then cl
      else case message_queue cl of
        None \<Rightarrow> cl
      | Some [] \<Rightarrow> cl
      | Some (m # q) \<Rightarrow>
          (let cl' = cl\<lparr>message_queue := Some q\<rparr>
           in if chat cl then
                cl'\<lparr>chat_sends := chat_sends cl @ [(m, outcome)],
                    client_log := client_log cl @
                      [case outcome of SendOk \<Rightarrow> Sent (take 80 m) | SendRaises \<Rightarrow> SendError]\<rparr>
              else cl'))"

text \<open>
  \<^verbatim>\<open>_run\<close> up to the sender loop: the check of the credential pair, then the queue
  and the chat session.
\<close>

definition run_setup :: "twitch_client \<Rightarrow> exn + twitch_client" where
  "run_setup cl =
     (case auth_tokens cl of
        None \<Rightarrow> Inl (RuntimeError ''authenticate() must be awaited before start()'')
      | Some tokens \<Rightarrow> Inr (cl\<lparr>message_queue := Some [], chat := True\<rparr>))"

text \<open>
  \<^verbatim>\<open>_thread_target\<close> is the body of the background thread: an exception that leaves
  it ends the thread and goes no further.
\<close>

definition thread_target :: "twitch_client \<Rightarrow> twitch_client" where
  "thread_target cl =
     (let cl' = cl\<lparr>event_loop := True\<rparr>
      in case run_setup cl' of
           Inl e \<Rightarrow> cl'\<lparr>thread_exit := Some e\<rparr>
         | Inr cl'' \<Rightarrow> cl'')"

text \<open>\<^verbatim>\<open>start\<close>: sets the flag, starts the thread, sleeps and returns the thread.\<close>

definition start :: "twitch_client \<Rightarrow> exn + twitch_client" where
  "start cl = Inr (thread_target (cl\<lparr>is_running := True\<rparr>))"

text \<open>
  \<^verbatim>\<open>send_message\<close>: the put is handed to the event loop, which runs the puts it is
  handed one at a time, in the order it got them.
\<close>

definition send_message :: "str \<Rightarrow> twitch_client \<Rightarrow> twitch_client" where
  "send_message t cl =
     (case (event_loop cl, message_queue cl) of
        (True, Some q) \<Rightarrow> cl\<lparr>message_queue := Some (q @ [t])\<rparr>
      | _ \<Rightarrow> cl\<lparr>client_log := client_log cl @ [CannotSend]\<rparr>)"

definition stop :: "twitch_client \<Rightarrow> twitch_client" where
  "stop cl = cl\<lparr>is_running := False, client_log := client_log cl @ [Stopped]\<rparr>"

text \<open>
  The execution contexts that touch the client, interleaved in any order: a call of
  \<^verbatim>\<open>send_message\<close> from any of them, a turn of the sender loop, a call of \<^verbatim>\<open>stop\<close>.
\<close>

datatype action = Enqueue str | Turn send_outcome | Stop

fun act :: "action \<Rightarrow> twitch_client \<Rightarrow> twitch_client" where
  "act (Enqueue t) cl = send_message t cl"
| "act (Turn outcome) cl = sender_step outcome cl"
| "act Stop cl = stop cl"

fun run_schedule :: "action list \<Rightarrow> twitch_client \<Rightarrow> twitch_client" where
  "run_schedule [] cl = cl"
| "run_schedule (a # as) cl = run_schedule as (act a cl)"

fun enqueued :: "action list \<Rightarrow> str list" where
  "enqueued [] = []"
| "enqueued (Enqueue t # as) = t # enqueued as"
| "enqueued (a # as) = enqueued as"

section \<open>main.py: the two transforms\<close>

text \<open>
  \<^verbatim>\<open>_MENTION_RE\<close> is \<^verbatim>\<open>(nami|peepingnami)\<close> under \<^verbatim>\<open>re.IGNORECASE\<close>. A literal letter of
  the pattern matches itself, its capital and, for \<^verbatim>\<open>i\<close>, the dotted capital U+0130
  and the dotless U+0131.
\<close>

definition letter_ci :: "nat \<Rightarrow> nat \<Rightarrow> bool" where
  "letter_ci p c \<longleftrightarrow> c = p \<or> c + 32 = p \<or> (p = 105 \<and> (c = 304 \<or> c = 305))"

fun literal_ci :: "str \<Rightarrow> str \<Rightarrow> bool" where
  "literal_ci [] cs = True"
| "literal_ci (p # ps) [] = False"
| "literal_ci (p # ps) (c # cs) = (letter_ci p c \<and> literal_ci ps cs)"

fun mention_search :: "str \<Rightarrow> bool" where
  "mention_search [] = False"
| "mention_search (c # cs) =
     (literal_ci (str_of ''nami'') (c # cs) \<or> literal_ci (str_of ''peepingnami'') (c # cs) \<or>
      mention_search cs)"

text \<open>\<^verbatim>\<open>_handle_twitch_message\<close>: the two emits, each with what the socket client shows it.\<close>

definition handle_twitch_message ::
    "sio_view \<Rightarrow> sio_view \<Rightarrow> chat_message \<Rightarrow> channel \<Rightarrow> exn + channel" where
  "handle_twitch_message v1 v2 msg ch =
     (let username = user_name msg;
          text = msg_text msg;
          is_mention = mention_search text
      in case emit_twitch_message v1 username text ch of
           Inl e \<Rightarrow> Inl e
         | Inr ch' \<Rightarrow> emit_scored_event v2 username text is_mention ch')"

text \<open>
  \<^verbatim>\<open>_handle_bot_reply\<close>. The payload is a dictionary: a key may be missing, and
  \<^verbatim>\<open>data.get\<close> then gives the empty string for \<^verbatim>\<open>reply\<close> and \<^verbatim>\<open>None\<close> for
  \<^verbatim>\<open>is_censored\<close>.
\<close>

record bot_reply =
  reply :: "str option"
  is_censored :: "bool option"

definition handle_bot_reply :: "bot_reply \<Rightarrow> twitch_client \<Rightarrow> twitch_client" where
  "handle_bot_reply data cl =
     (let r = (case reply data of None \<Rightarrow> [] | Some t \<Rightarrow> t)
      in if r = [] then cl
         else
           (let chat_msg =
                  (if is_censored data = Some True then str_of ''*censored*''
                   else strip_sound_effects r)
            in if chat_msg \<noteq> [] then
                 (let cl' = send_message chat_msg cl
                  in cl'\<lparr>client_log := client_log cl' @ [Forwarded (take 80 chat_msg)]\<rparr>)
               else cl))"



section \<open>Properties of the reply clean-up\<close>

subsection \<open>Characters and neighbours\<close>



lemma star_neither: "\<not> is_alpha star" "\<not> is_space star" "\<not> is_punct star"
  by (simp_all add: is_alpha_def is_space_def is_punct_def)






subsection \<open>Collapsing whitespace\<close>








subsection \<open>Trimming\<close>






subsection \<open>Whitespace before punctuation\<close>



lemma sub_punct_one: "sub_punct [c] = [c]"
  by simp

declare sub_punct.simps(2) [simp del]
declare sub_punct_one [simp]











subsection \<open>Sound-effect annotations\<close>



lemma match_fx_annotation:
  assumes "w \<noteq> []" and "\<forall>c\<in>set w. is_alpha c"
  shows "match_fx (star # w @ star # b) = Some b"
proof -
  from assms(2) have "dropWhile is_alpha (w @ star # b) = dropWhile is_alpha (star # b)"
    by (intro dropWhile_append2) simp
  then have d: "dropWhile is_alpha (w @ star # b) = star # b" by (simp add: star_neither)
  from assms obtain c cs where "w = c # cs" and "is_alpha c" by (cases w) auto
  then have "takeWhile is_alpha (w @ star # b) \<noteq> []" by simp
  with d show ?thesis by simp
qed

lemma match_fx_other: "c \<noteq> star \<Longrightarrow> match_fx (c # cs) = None"
  by simp


lemma sub_fx_nostar: "star \<notin> set a \<Longrightarrow> sub_fx (a @ b) = a @ sub_fx b"
  by (induction a) simp_all

lemma sub_fx_annotation:
  assumes "star \<notin> set a" and "w \<noteq> []" and "\<forall>c\<in>set w. is_alpha c"
  shows "sub_fx (a @ star # w @ star # b) = a @ sub_fx b"
proof -
  from assms(1) have "sub_fx (a @ star # w @ star # b) = a @ sub_fx (star # w @ star # b)"
    by (rule sub_fx_nostar)
  also have "sub_fx (star # w @ star # b) = sub_fx b"
    using match_fx_annotation [OF assms(2,3), of b] by (simp del: match_fx.simps)
  finally show ?thesis .
qed








subsection \<open>Words, single spaces and marks\<close>




















subsection \<open>Annotations after any closed text\<close>










section \<open>The claims about the reply clean-up\<close>







section \<open>Properties of the event channel\<close>

lemma safe_emit_cases:
  "safe_emit v event p ch =
     Inr (if sio_connected v then
            (case emit_outcome v of
               EmitOk \<Rightarrow> ch\<lparr>wire := wire ch @ [(event, p)]\<rparr>
             | EmitRaises \<Rightarrow> ch\<lparr>printed := printed ch @ [EmitError event]\<rparr>)
          else ch\<lparr>printed := printed ch @ [DropEvent event]\<rparr>)"
  by (cases "emit_outcome v") (simp_all add: safe_emit_def)

text \<open>
  C6: a call of \<^verbatim>\<open>_safe_emit\<close> while the socket client is not connected returns
  normally, hands nothing to the transport, keeps the event nowhere (the module has no
  buffer) and prints the warning that the event was dropped.
\<close>

theorem safe_emit_disconnected:
  "\<not> sio_connected v \<Longrightarrow>
   safe_emit v event p ch = Inr (ch\<lparr>printed := printed ch @ [DropEvent event]\<rparr>) \<and>
   (\<exists>ch'. safe_emit v event p ch = Inr ch' \<and> wire ch' = wire ch \<and>
      printed ch' = printed ch @ [DropEvent event])"
  by (simp add: safe_emit_cases)

text \<open>C6 at a disconnected client and an empty channel.\<close>

theorem safe_emit_disconnected_witness:
  "safe_emit \<lparr>sio_connected = False, emit_outcome = EmitOk\<rparr> ''event'' (RawMessage [110] [104, 105])
     \<lparr>wire = [], printed = []\<rparr> = Inr \<lparr>wire = [], printed = [DropEvent ''event'']\<rparr>"
  using safe_emit_disconnected
    [of "\<lparr>sio_connected = False, emit_outcome = EmitOk\<rparr>" "''event''" "RawMessage [110] [104, 105]"
      "\<lparr>wire = [], printed = []\<rparr>"]
  by simp

text \<open>
  C10: \<^verbatim>\<open>emit_twitch_message\<close> and \<^verbatim>\<open>emit_scored_event\<close> return normally whatever
  the socket client does, with exactly one of three results: the event on the wire,
  the drop warning printed, or, when the client is connected and the emit raises, the
  error printed and nothing else changed. No exception reaches the caller.
\<close>

theorem emit_never_raises:
  "emit_twitch_message v username message ch =
     Inr (if sio_connected v then
            (case emit_outcome v of
               EmitOk \<Rightarrow>
                 ch\<lparr>wire := wire ch @ [(''twitch_message'', RawMessage username message)]\<rparr>
             | EmitRaises \<Rightarrow> ch\<lparr>printed := printed ch @ [EmitError ''twitch_message'']\<rparr>)
          else ch\<lparr>printed := printed ch @ [DropEvent ''twitch_message'']\<rparr>) \<and>
   emit_scored_event v username message is_mention ch =
     Inr (if sio_connected v then
            (case emit_outcome v of
               EmitOk \<Rightarrow>
                 ch\<lparr>wire := wire ch @
                   [(''event'',
                     ScoredEvent
                       \<lparr>source_str = (if is_mention then ''TWITCH_MENTION'' else ''TWITCH_CHAT''),
                        event_text = message,
                        event_metadata =
                          \<lparr>meta_username = username, mentioned_bot = is_mention,
                           message_length = length message, relevance = 1 / 2\<rparr>,
                        event_username = username\<rparr>)]\<rparr>
             | EmitRaises \<Rightarrow> ch\<lparr>printed := printed ch @ [EmitError ''event'']\<rparr>)
          else ch\<lparr>printed := printed ch @ [DropEvent ''event'']\<rparr>) \<and>
   (sio_connected v \<and> emit_outcome v = EmitRaises \<longrightarrow>
      emit_twitch_message v username message ch =
        Inr (ch\<lparr>printed := printed ch @ [EmitError ''twitch_message'']\<rparr>) \<and>
      emit_scored_event v username message is_mention ch =
        Inr (ch\<lparr>printed := printed ch @ [EmitError ''event'']\<rparr>) \<and>
      safe_emit v event p ch = Inr (ch\<lparr>printed := printed ch @ [EmitError event]\<rparr>))"
  by (simp add: emit_twitch_message_def emit_scored_event_def safe_emit_cases)

text \<open>C10 at a connected client whose emit raises, for both operations.\<close>

theorem emit_never_raises_witness:
  "emit_twitch_message \<lparr>sio_connected = True, emit_outcome = EmitRaises\<rparr> (str_of ''bob'')
     (str_of ''hi'') \<lparr>wire = [], printed = []\<rparr> =
     Inr \<lparr>wire = [], printed = [EmitError ''twitch_message'']\<rparr> \<and>
   emit_scored_event \<lparr>sio_connected = True, emit_outcome = EmitRaises\<rparr> (str_of ''bob'')
     (str_of ''hi'') False \<lparr>wire = [], printed = []\<rparr> =
     Inr \<lparr>wire = [], printed = [EmitError ''event'']\<rparr>"
  using emit_never_raises
    [of "\<lparr>sio_connected = True, emit_outcome = EmitRaises\<rparr>" "str_of ''bob''" "str_of ''hi''"
      "\<lparr>wire = [], printed = []\<rparr>" False "''event''" "RawMessage [] []"]
  by simp

section \<open>The claims about the inbound transform\<close>

lemma mention_hi: "mention_search (str_of ''hi'') = False"
  by (simp add: str_of_def letter_ci_def)

text \<open>
  C1: for every message that reaches the callback the handler makes exactly one send
  of \<^verbatim>\<open>twitch_message\<close> with \<open>{username, message}\<close> and then exactly one send of
  \<^verbatim>\<open>event\<close> on the connector, and returns normally: it is the first emit followed
  by the second on the channel the first left. Each send leaves exactly one trace, its
  event on the wire when the client is connected and the emit succeeds, its drop or
  error line otherwise; the channel grows by these two and nothing else, the
  \<^verbatim>\<open>twitch_message\<close> before the \<^verbatim>\<open>event\<close>.
\<close>

theorem handle_twitch_message_sends:
  "\<exists>ch1 ch2.
     emit_twitch_message v1 (user_name msg) (msg_text msg) ch = Inr ch1 \<and>
     emit_scored_event v2 (user_name msg) (msg_text msg) (mention_search (msg_text msg)) ch1 =
       Inr ch2 \<and>
     handle_twitch_message v1 v2 msg ch = Inr ch2 \<and>
     wire ch2 = wire ch @
       (if sio_connected v1 \<and> emit_outcome v1 = EmitOk
        then [(''twitch_message'', RawMessage (user_name msg) (msg_text msg))] else []) @
       (if sio_connected v2 \<and> emit_outcome v2 = EmitOk
        then [(''event'',
               ScoredEvent
                 \<lparr>source_str =
                    (if mention_search (msg_text msg) then ''TWITCH_MENTION'' else ''TWITCH_CHAT''),
                  event_text = msg_text msg,
                  event_metadata =
                    \<lparr>meta_username = user_name msg,
                     mentioned_bot = mention_search (msg_text msg),
                     message_length = length (msg_text msg), relevance = 1 / 2\<rparr>,
                  event_username = user_name msg\<rparr>)]
        else []) \<and>
     printed ch2 = printed ch @
       (if sio_connected v1 \<and> emit_outcome v1 = EmitOk then []
        else [if sio_connected v1 then EmitError ''twitch_message''
              else DropEvent ''twitch_message'']) @
       (if sio_connected v2 \<and> emit_outcome v2 = EmitOk then []
        else [if sio_connected v2 then EmitError ''event'' else DropEvent ''event''])"
  unfolding handle_twitch_message_def emit_twitch_message_def emit_scored_event_def Let_def
    safe_emit_cases
  by (cases "emit_outcome v1"; cases "emit_outcome v2") simp_all

text \<open>C1 at a connected client: the two events on the wire, in order, and nothing printed.\<close>

theorem handle_twitch_message_sends_witness:
  "\<exists>ch'. handle_twitch_message \<lparr>sio_connected = True, emit_outcome = EmitOk\<rparr>
       \<lparr>sio_connected = True, emit_outcome = EmitOk\<rparr>
       \<lparr>user_name = str_of ''bob'', msg_text = str_of ''hi''\<rparr> \<lparr>wire = [], printed = []\<rparr> = Inr ch' \<and>
     wire ch' =
       [(''twitch_message'', RawMessage (str_of ''bob'') (str_of ''hi'')),
        (''event'',
         ScoredEvent
           \<lparr>source_str = ''TWITCH_CHAT'', event_text = str_of ''hi'',
            event_metadata =
              \<lparr>meta_username = str_of ''bob'', mentioned_bot = False,
               message_length = 2, relevance = 1 / 2\<rparr>,
            event_username = str_of ''bob''\<rparr>)] \<and>
     printed ch' = []"
  using handle_twitch_message_sends
    [of "\<lparr>sio_connected = True, emit_outcome = EmitOk\<rparr>"
      "\<lparr>user_name = str_of ''bob'', msg_text = str_of ''hi''\<rparr>" "\<lparr>wire = [], printed = []\<rparr>"
      "\<lparr>sio_connected = True, emit_outcome = EmitOk\<rparr>"]
  by (auto simp: mention_hi str_of_def numeral_2_eq_2)

text \<open>
  The same handler at a client that is not connected: both sends are made, both are
  dropped by the connector and both drops are printed, in order.
\<close>

lemma handle_twitch_message_disconnected:
  "handle_twitch_message \<lparr>sio_connected = False, emit_outcome = EmitOk\<rparr>
     \<lparr>sio_connected = False, emit_outcome = EmitOk\<rparr>
     \<lparr>user_name = str_of ''bob'', msg_text = str_of ''hi''\<rparr> \<lparr>wire = [], printed = []\<rparr> =
   Inr \<lparr>wire = [], printed = [DropEvent ''twitch_message'', DropEvent ''event'']\<rparr>"
  by (simp add: handle_twitch_message_def emit_twitch_message_def emit_scored_event_def
      safe_emit_cases Let_def)

section \<open>The claims about the chat provider and the reply handler\<close>

lemma censored_nonempty: "str_of ''*censored*'' \<noteq> []"
  by (simp add: str_of_def)

text \<open>
  C2, as stated, fails: a censored reply whose \<^verbatim>\<open>reply\<close> is empty is dropped by the
  first test of the handler; nothing is sent and the client is left as it was.
\<close>

theorem handle_bot_reply_empty_counterexample:
  "handle_bot_reply \<lparr>reply = Some [], is_censored = Some True\<rparr>
     \<lparr>auth_tokens = Some ([116], [114]), event_loop = True, message_queue = Some [],
      chat = True, is_running = True, thread_exit = None, chat_sends = [], client_log = []\<rparr> =
     \<lparr>auth_tokens = Some ([116], [114]), event_loop = True, message_queue = Some [],
      chat = True, is_running = True, thread_exit = None, chat_sends = [], client_log = []\<rparr>"
  by (simp add: handle_bot_reply_def)

text \<open>
  C2, amended: for every payload with \<^verbatim>\<open>is_censored\<close> true and a non-empty \<^verbatim>\<open>reply\<close>,
  whatever that reply is, the handler does exactly what a call of \<^verbatim>\<open>send_message\<close>
  with the fixed placeholder and the print after it do, with no clean-up of the reply;
  on a client whose loop and queue exist the placeholder joins the queue.
\<close>

theorem handle_bot_reply_censored:
  "reply data = Some r \<Longrightarrow> r \<noteq> [] \<Longrightarrow> is_censored data = Some True \<Longrightarrow>
   handle_bot_reply data cl =
     (send_message (str_of ''*censored*'') cl)
       \<lparr>client_log := client_log (send_message (str_of ''*censored*'') cl) @
          [Forwarded (take 80 (str_of ''*censored*''))]\<rparr> \<and>
   (event_loop cl \<and> message_queue cl = Some q \<longrightarrow>
      message_queue (handle_bot_reply data cl) = Some (q @ [str_of ''*censored*'']))"
  by (simp add: handle_bot_reply_def censored_nonempty Let_def send_message_def)

text \<open>The amended C2 at a reply that holds an annotation.\<close>

theorem handle_bot_reply_censored_witness:
  "message_queue
     (handle_bot_reply \<lparr>reply = Some (str_of ''oh *sighs* no''), is_censored = Some True\<rparr>
        \<lparr>auth_tokens = Some ([116], [114]), event_loop = True, message_queue = Some [],
         chat = True, is_running = True, thread_exit = None, chat_sends = [], client_log = []\<rparr>) =
   Some [str_of ''*censored*'']"
  using handle_bot_reply_censored
    [of "\<lparr>reply = Some (str_of ''oh *sighs* no''), is_censored = Some True\<rparr>"
      "str_of ''oh *sighs* no''"
      "\<lparr>auth_tokens = Some ([116], [114]), event_loop = True, message_queue = Some [],
         chat = True, is_running = True, thread_exit = None, chat_sends = [], client_log = []\<rparr>"
      "[]"]
  by (simp add: str_of_def send_message_def)

text \<open>
  C7: \<^verbatim>\<open>start\<close> on a client that holds no credential pair. The call returns normally
  with the running flag set; the \<^verbatim>\<open>RuntimeError\<close> of \<^verbatim>\<open>_run\<close> ends the background thread
  and does not reach the caller, and no queue exists afterwards.
\<close>

theorem start_without_tokens:
  "start \<lparr>auth_tokens = None, event_loop = False, message_queue = None,
      chat = False, is_running = False, thread_exit = None, chat_sends = [], client_log = []\<rparr> =
   Inr \<lparr>auth_tokens = None, event_loop = True, message_queue = None,
      chat = False, is_running = True,
      thread_exit = Some (RuntimeError ''authenticate() must be awaited before start()''),
      chat_sends = [], client_log = []\<rparr>"
  by (simp add: start_def thread_target_def run_setup_def)

text \<open>
  C8: a message whose author's name, lowered, equals the lowered bot name is dropped
  whatever callback is registered; every other message is handed to the registered
  callback, whose result is the result.
\<close>

theorem on_message_self_filter:
  "(lower (user_name msg) = lower bot_name \<longrightarrow>
      on_message lower bot_name on_message_cb msg w = Inr w) \<and>
   (lower (user_name msg) \<noteq> lower bot_name \<longrightarrow>
      on_message lower bot_name (Some cb) msg w = cb msg w)"
  by (simp add: on_message_def)

text \<open>C8 at the bot's own name in another case and at another author, the callback counting its calls.\<close>

theorem on_message_self_filter_witness:
  "on_message ascii_lower (str_of ''NamiBot'') (Some (\<lambda>m n. Inr (Suc n)))
     \<lparr>user_name = str_of ''namibot'', msg_text = str_of ''hi''\<rparr> (0::nat) = Inr 0 \<and>
   on_message ascii_lower (str_of ''NamiBot'') (Some (\<lambda>m n. Inr (Suc n)))
     \<lparr>user_name = str_of ''bob'', msg_text = str_of ''hi''\<rparr> (0::nat) = Inr 1"
proof -
  have a: "ascii_lower (str_of ''namibot'') = ascii_lower (str_of ''NamiBot'')"
    and b: "ascii_lower (str_of ''bob'') \<noteq> ascii_lower (str_of ''NamiBot'')"
    by (simp_all add: ascii_lower_def str_of_def)
  from a on_message_self_filter
    [where lower = ascii_lower and bot_name = "str_of ''NamiBot''" and w = "0::nat"
       and msg = "\<lparr>user_name = str_of ''namibot'', msg_text = str_of ''hi''\<rparr>"
       and on_message_cb = "Some (\<lambda>m n. Inr (Suc n))"]
  have 1: "on_message ascii_lower (str_of ''NamiBot'') (Some (\<lambda>m n. Inr (Suc n)))
     \<lparr>user_name = str_of ''namibot'', msg_text = str_of ''hi''\<rparr> (0::nat) = Inr 0"
    by simp
  from b on_message_self_filter
    [where lower = ascii_lower and bot_name = "str_of ''NamiBot''" and w = "0::nat"
       and msg = "\<lparr>user_name = str_of ''bob'', msg_text = str_of ''hi''\<rparr>"
       and cb = "\<lambda>m n. Inr (Suc n)"]
  have 2: "on_message ascii_lower (str_of ''NamiBot'') (Some (\<lambda>m n. Inr (Suc n)))
     \<lparr>user_name = str_of ''bob'', msg_text = str_of ''hi''\<rparr> (0::nat) = Inr 1"
    by simp
  from 1 2 show ?thesis by simp
qed

section \<open>Properties of the connection loop\<close>

lemma running_None: "running None t"
  by (simp add: running_def)

lemma backoff_None: "backoff None n t = (t + n, False)"
  by (induction n arbitrary: t) (simp_all add: running_None)

lemma idle_None: "idle None k t = t + 2 * k"
  by (induction k arbitrary: t) (simp_all add: running_None)

lemma run_connector_None_Cons:
  "run_connector None (a # as) c = run_connector None as (run_connector None [a] c)"
  by (cases a) (simp_all add: running_None backoff_None Let_def)

lemma run_connector_None_append:
  "run_connector None (as @ bs) c = run_connector None bs (run_connector None as c)"
proof (induction as arbitrary: c)
  case Nil show ?case by simp
next
  case (Cons a as)
  have "run_connector None ((a # as) @ bs) c
      = run_connector None (as @ bs) (run_connector None [a] c)"
    using run_connector_None_Cons [of a "as @ bs" c] by simp
  also have "\<dots> = run_connector None bs (run_connector None as (run_connector None [a] c))"
    by (rule Cons.IH)
  also have "run_connector None as (run_connector None [a] c) = run_connector None (a # as) c"
    by (rule run_connector_None_Cons [symmetric])
  finally show ?case .
qed

lemma since_last_ok_snoc:
  "since_last_ok (as @ [a]) = (if is_ok a then [] else since_last_ok as @ [a])"
  by (simp add: since_last_ok_def)

lemma streak_snoc:
  "streak (as @ [a]) =
     (if is_ok a then 0 else if a = ConnectFailed then Suc (streak as) else streak as)"
  by (simp add: streak_def since_last_ok_snoc)

lemma failures_one:
  "failures (run_connector None [a] c) =
     (if is_ok a then 0 else if a = ConnectFailed then Suc (failures c) else failures c)"
  by (cases a) (simp_all add: running_None backoff_None Let_def)

lemma failures_streak: "failures (run_connector None as fresh) = streak as"
proof (induction as rule: rev_induct)
  case Nil show ?case by (simp add: fresh_def streak_def since_last_ok_def)
next
  case (snoc a as)
  then show ?case
    by (simp add: run_connector_None_append failures_one streak_snoc del: run_connector.simps)
qed

text \<open>
  C5: while nobody stops the loop, the failure counter is the number of recognised
  connection failures since the last successful connection; the next such failure, the
  \<open>N\<close>-th, prints and sleeps \<open>min (5 * N) 30\<close> seconds (twice as many half seconds);
  after \<open>n\<close> failures in a row from the start or from a success \<open>N\<close> is \<open>n\<close>; a
  successful connection sets the counter to 0; an unexpected error sleeps 5 seconds and
  leaves the counter as it was.
\<close>

theorem backoff_schedule:
  "failures (run_connector None as fresh) = streak as \<and>
   run_connector None (as @ [ConnectFailed]) fresh =
     (run_connector None as fresh)
       \<lparr>failures := Suc (streak as),
        clock := clock (run_connector None as fresh) + 2 * min (5 * Suc (streak as)) 30,
        connector_log := connector_log (run_connector None as fresh) @
          [Connecting, ConnectionFailed (Suc (streak as)) (min (5 * Suc (streak as)) 30)]\<rparr> \<and>
   streak (as @ ConnectOk k # replicate n ConnectFailed) = n \<and>
   streak (replicate n ConnectFailed) = n \<and>
   failures (run_connector None (as @ [ConnectOk k]) fresh) = 0 \<and>
   run_connector None (as @ [ConnectUnexpected]) fresh =
     (run_connector None as fresh)
       \<lparr>clock := clock (run_connector None as fresh) + 10,
        connector_log := connector_log (run_connector None as fresh) @
          [Connecting, UnexpectedError]\<rparr>"
proof (intro conjI)
  show f: "failures (run_connector None as fresh) = streak as" by (rule failures_streak)
  show "run_connector None (as @ [ConnectFailed]) fresh =
     (run_connector None as fresh)
       \<lparr>failures := Suc (streak as),
        clock := clock (run_connector None as fresh) + 2 * min (5 * Suc (streak as)) 30,
        connector_log := connector_log (run_connector None as fresh) @
          [Connecting, ConnectionFailed (Suc (streak as)) (min (5 * Suc (streak as)) 30)]\<rparr>"
    unfolding run_connector_None_append f [symmetric]
    by (simp add: running_None backoff_None Let_def mult.commute)
  have r: "rev (replicate n ConnectFailed) = replicate n ConnectFailed" for n by simp
  have t: "takeWhile (\<lambda>a. \<not> is_ok a) (replicate n ConnectFailed @ bs)
      = replicate n ConnectFailed @ takeWhile (\<lambda>a. \<not> is_ok a) bs" for n bs
    by (induction n) simp_all
  show "streak (as @ ConnectOk k # replicate n ConnectFailed) = n"
    by (simp add: streak_def since_last_ok_def t)
  show "streak (replicate n ConnectFailed) = n"
    using t [of n "[]"] by (simp add: streak_def since_last_ok_def)
  show "failures (run_connector None (as @ [ConnectOk k]) fresh) = 0"
    by (simp add: run_connector_None_append running_None)
  show "run_connector None (as @ [ConnectUnexpected]) fresh =
     (run_connector None as fresh)
       \<lparr>clock := clock (run_connector None as fresh) + 10,
        connector_log := connector_log (run_connector None as fresh) @
          [Connecting, UnexpectedError]\<rparr>"
    by (simp add: run_connector_None_append running_None)
qed

text \<open>C5 on a run with three failures, an unexpected error among them, a success and a failure.\<close>

theorem backoff_schedule_witness:
  "connector_log (run_connector None
      [ConnectFailed, ConnectFailed, ConnectUnexpected, ConnectFailed, ConnectOk 3, ConnectFailed]
      fresh) =
    [Connecting, ConnectionFailed 1 5, Connecting, ConnectionFailed 2 10,
     Connecting, UnexpectedError, Connecting, ConnectionFailed 3 15, Connecting,
     Connecting, ConnectionFailed 1 5]"
proof -
  have s: "streak [ConnectFailed, ConnectFailed, ConnectUnexpected, ConnectFailed, ConnectOk 3] = 0"
    by (simp add: streak_def since_last_ok_def)
  have l: "connector_log (run_connector None
      [ConnectFailed, ConnectFailed, ConnectUnexpected, ConnectFailed, ConnectOk 3] fresh) =
    [Connecting, ConnectionFailed 1 5, Connecting, ConnectionFailed 2 10,
     Connecting, UnexpectedError, Connecting, ConnectionFailed 3 15, Connecting]"
    by (simp add: fresh_def running_def Let_def backoff_None)
  from backoff_schedule
    [of "[ConnectFailed, ConnectFailed, ConnectUnexpected, ConnectFailed, ConnectOk 3]"]
  have "run_connector None
      ([ConnectFailed, ConnectFailed, ConnectUnexpected, ConnectFailed, ConnectOk 3] @ [ConnectFailed])
      fresh =
     (run_connector None [ConnectFailed, ConnectFailed, ConnectUnexpected, ConnectFailed, ConnectOk 3] fresh)
       \<lparr>failures := Suc 0,
        clock := clock (run_connector None
          [ConnectFailed, ConnectFailed, ConnectUnexpected, ConnectFailed, ConnectOk 3] fresh) + 2 * min (5 * Suc 0) 30,
        connector_log := connector_log (run_connector None
          [ConnectFailed, ConnectFailed, ConnectUnexpected, ConnectFailed, ConnectOk 3] fresh) @
          [Connecting, ConnectionFailed (Suc 0) (min (5 * Suc 0) 30)]\<rparr>"
    unfolding s by blast
  then have "connector_log (run_connector None
      ([ConnectFailed, ConnectFailed, ConnectUnexpected, ConnectFailed, ConnectOk 3] @ [ConnectFailed])
      fresh) =
    connector_log (run_connector None
          [ConnectFailed, ConnectFailed, ConnectUnexpected, ConnectFailed, ConnectOk 3] fresh) @
          [Connecting, ConnectionFailed (Suc 0) (min (5 * Suc 0) 30)]"
    by (simp del: run_connector.simps)
  then show ?thesis unfolding l by (simp del: run_connector.simps)
qed

section \<open>Properties of the sender loop\<close>

lemma act_fifo:
  assumes "event_loop cl" and "message_queue cl = Some q" and "chat cl"
  shows "\<exists>q'. event_loop (act a cl) \<and> chat (act a cl) \<and> message_queue (act a cl) = Some q' \<and>
     map fst (chat_sends (act a cl)) @ q' =
       map fst (chat_sends cl) @ q @ enqueued [a]"
proof (cases a)
  case (Enqueue t)
  with assms show ?thesis by (simp add: send_message_def)
next
  case (Turn outcome)
  with assms show ?thesis by (cases q) (simp_all add: sender_step_def Let_def)
next
  case Stop
  with assms show ?thesis by (simp add: stop_def)
qed

lemma enqueued_Cons: "enqueued (a # as) = enqueued [a] @ enqueued as"
  by (cases a) simp_all

lemma run_schedule_fifo:
  assumes "event_loop cl" and "message_queue cl = Some q" and "chat cl"
  shows "\<exists>q'. message_queue (run_schedule sched cl) = Some q' \<and>
     map fst (chat_sends (run_schedule sched cl)) @ q' =
       map fst (chat_sends cl) @ q @ enqueued sched"
  using assms
proof (induction sched arbitrary: cl q)
  case Nil
  then show ?case by simp
next
  case (Cons a as)
  from act_fifo [OF Cons.prems, of a] obtain q1 where
    1: "event_loop (act a cl)" "chat (act a cl)" "message_queue (act a cl) = Some q1"
    and e: "map fst (chat_sends (act a cl)) @ q1 = map fst (chat_sends cl) @ q @ enqueued [a]"
    by blast
  from Cons.IH [OF 1(1) 1(3) 1(2)] obtain q' where
    2: "message_queue (run_schedule as (act a cl)) = Some q'"
    and e': "map fst (chat_sends (run_schedule as (act a cl))) @ q' =
       map fst (chat_sends (act a cl)) @ q1 @ enqueued as"
    by blast
  from e e' have "map fst (chat_sends (run_schedule as (act a cl))) @ q' =
       map fst (chat_sends cl) @ q @ enqueued [a] @ enqueued as"
    by (metis append.assoc)
  with 2 show ?case by (simp add: enqueued_Cons [of a as])
qed

text \<open>
  C9: from a started client with an empty queue, under every interleaving of calls of
  \<^verbatim>\<open>send_message\<close>, turns of the sender loop and calls of \<^verbatim>\<open>stop\<close>, the messages the
  sender loop has sent followed by the messages still queued are the messages enqueued,
  in the order they were enqueued: what was sent is a prefix of what was enqueued, and
  the messages whose send succeeded keep that order.
\<close>

theorem sender_loop_fifo:
  "event_loop cl \<and> message_queue cl = Some [] \<and> chat cl \<and> chat_sends cl = [] \<longrightarrow>
   (\<exists>q'. message_queue (run_schedule sched cl) = Some q' \<and>
      map fst (chat_sends (run_schedule sched cl)) @ q' = enqueued sched) \<and>
   prefix (map fst (chat_sends (run_schedule sched cl))) (enqueued sched) \<and>
   subseq (map fst (filter (\<lambda>x. snd x = SendOk) (chat_sends (run_schedule sched cl))))
     (enqueued sched)"
proof
  assume a: "event_loop cl \<and> message_queue cl = Some [] \<and> chat cl \<and> chat_sends cl = []"
  then obtain q' where q: "message_queue (run_schedule sched cl) = Some q'"
    and e: "map fst (chat_sends (run_schedule sched cl)) @ q' =
       map fst (chat_sends cl) @ [] @ enqueued sched"
    using run_schedule_fifo [of cl "[]" sched] by blast
  from e a have e': "map fst (chat_sends (run_schedule sched cl)) @ q' = enqueued sched" by simp
  then have p: "prefix (map fst (chat_sends (run_schedule sched cl))) (enqueued sched)"
    by (metis prefixI)
  have "subseq (filter (\<lambda>x. snd x = SendOk) (chat_sends (run_schedule sched cl)))
      (chat_sends (run_schedule sched cl))"
    by (rule subseq_filter_left)
  then have "subseq (map fst (filter (\<lambda>x. snd x = SendOk) (chat_sends (run_schedule sched cl))))
      (map fst (chat_sends (run_schedule sched cl)))"
    by (rule subseq_map)
  moreover from p have "subseq (map fst (chat_sends (run_schedule sched cl))) (enqueued sched)"
    by (rule prefix_imp_subseq)
  ultimately have d: "subseq
      (map fst (filter (\<lambda>x. snd x = SendOk) (chat_sends (run_schedule sched cl))))
      (enqueued sched)"
    by (rule subseq_order.trans)
  from q e' p d show "(\<exists>q'. message_queue (run_schedule sched cl) = Some q' \<and>
      map fst (chat_sends (run_schedule sched cl)) @ q' = enqueued sched) \<and>
   prefix (map fst (chat_sends (run_schedule sched cl))) (enqueued sched) \<and>
   subseq (map fst (filter (\<lambda>x. snd x = SendOk) (chat_sends (run_schedule sched cl))))
     (enqueued sched)"
    by blast
qed

text \<open>C9 on three messages enqueued around four turns of the loop, one send raising.\<close>

theorem sender_loop_fifo_witness:
  "map fst (chat_sends (run_schedule
     [Enqueue [97], Enqueue [98], Turn SendOk, Enqueue [99], Turn SendRaises, Turn SendOk, Turn SendOk]
     \<lparr>auth_tokens = Some ([116], [114]), event_loop = True, message_queue = Some [],
      chat = True, is_running = True, thread_exit = None, chat_sends = [], client_log = []\<rparr>)) =
   [[97], [98], [99]]"
proof -
  let ?cl = "\<lparr>auth_tokens = Some ([116], [114]), event_loop = True, message_queue = Some [],
      chat = True, is_running = True, thread_exit = None, chat_sends = [], client_log = []\<rparr>"
  let ?s = "[Enqueue [97], Enqueue [98], Turn SendOk, Enqueue [99], Turn SendRaises, Turn SendOk, Turn SendOk]"
  have q: "message_queue (run_schedule ?s ?cl) = Some []"
    by (simp add: send_message_def sender_step_def Let_def)
  from sender_loop_fifo [of ?cl ?s] obtain q' where
    "message_queue (run_schedule ?s ?cl) = Some q'"
    and "map fst (chat_sends (run_schedule ?s ?cl)) @ q' = enqueued ?s"
    by auto
  with q show ?thesis by simp
qed

end
